theory Spec2Isabelle
  imports Main "HOL-Library.Char_ord" "HOL-Library.List_Lexorder"
begin

section \<open>The enumer generator: value resolution and the generated companion\<close>

text \<open>
  The repository holds two generators and one run-time package:
  \<^item> \<^verbatim>\<open>cmd/enumer/main.go\<close>: \<^verbatim>\<open>processEnum\<close> with fixed casing rules, and a
    \<^verbatim>\<open>processTemplate\<close> whose generated companion matches through a \<^verbatim>\<open>parseMap\<close>;
  \<^item> an older \<^verbatim>\<open>main.go\<close>: \<^verbatim>\<open>processEnum\<close> with configurable converters, and a
    \<^verbatim>\<open>processTemplate\<close> whose generated companion matches through \<^verbatim>\<open>enumer.IsEq\<close>;
  \<^item> package \<^verbatim>\<open>enumer\<close>: \<^verbatim>\<open>Join\<close>, \<^verbatim>\<open>IsEq\<close>, \<^verbatim>\<open>Scan\<close> and the other codecs.

  Definitions of the older generator carry the prefix \<open>older_\<close>. A Go \<^verbatim>\<open>string\<close> is a
  byte sequence, here \<^typ>\<open>string\<close>; a generated enumeration type is \<^verbatim>\<open>type T string\<close>,
  so a value of the enumeration is its serialized text.
\<close>

subsection \<open>Errors\<close>

text \<open>
  Every error of the Go code is an \<^verbatim>\<open>fmt.Errorf\<close> value; the constructors keep the
  arguments of the format string.
  \<^item> \<open>InvalidValues i\<close>: \<^verbatim>\<open>"invalid values[%v] name or serialized value"\<close> (processEnum);
  \<^item> \<open>NotOneOf v s\<close>: \<^verbatim>\<open>"%w: %v is not one of %s"\<close> (the generated \<^verbatim>\<open>errf\<close>);
  \<^item> \<open>MustBeOneOf a s\<close>: \<^verbatim>\<open>"invalid %w value '%v'. Must be one of %v"\<close> (the older
    generated \<^verbatim>\<open>newErr\<close>);
  \<^item> \<open>CannotBeNull\<close>, \<open>NotAString\<close>: \<^verbatim>\<open>"cannot be null"\<close>, \<^verbatim>\<open>"not a string"\<close> (Scan);
  \<^item> \<open>LibraryError m\<close>: an error returned by a function outside the repository
    (\<^verbatim>\<open>caser.Converter\<close>, \<^verbatim>\<open>driver.String.ConvertValue\<close>).
  The wrapped sentinel \<^verbatim>\<open>Err\<close> (\<^verbatim>\<open>"invalid <Type>"\<close>) is the same in every error of one
  companion and is left out.
\<close>

datatype error =
    InvalidValues nat
  | NotOneOf string string
  | MustBeOneOf string string
  | CannotBeNull
  | NotAString
  | LibraryError string

subsection \<open>Data\<close>

text \<open>
  \<^verbatim>\<open>enumer.EnumData\<close> and its value type are declared outside the given sources; the
  records hold the fields the resolution loop and the templates read.
\<close>

record EnumValue =
  Name :: string
  Serialized :: string
  ParseFrom :: "string list"

record EnumData =
  Values :: "EnumValue list"
  Serialize_Type :: string
  Serialize_Value :: string

subsection \<open>Functions of other packages, as parameters\<close>

text \<open>
  \<^verbatim>\<open>go-commoner/idiomatic/stringer\<close> and \<^verbatim>\<open>go-commoner/idiomatic/caser\<close> are not part
  of the repository. Their functions are fields of two records that every resolver
  takes as an argument. \<^verbatim>\<open>caser.Convert\<close> takes two case types; their type is the
  parameter \<open>'c\<close>.
\<close>

record stringer_pkg =
  IsEmpty :: "string \<Rightarrow> bool"
  IsDefined :: "string \<Rightarrow> bool"
  RemoveSymbols :: "string \<Rightarrow> string"
  RemoveSpace :: "string \<Rightarrow> string"
  RemoveNonLanguageCharacters :: "string \<Rightarrow> string \<Rightarrow> string"
  ReplaceNonLanguageCharacters :: "string \<Rightarrow> string \<Rightarrow> string \<Rightarrow> string"

record 'c caser_pkg =
  Convert :: "string \<Rightarrow> 'c \<Rightarrow> 'c \<Rightarrow> string"
  CaseTypes_Phrase :: 'c
  CaseTypes_Pascal :: 'c
  PascalToKebabLower :: "string \<Rightarrow> string"
  PhraseToPascal :: "string \<Rightarrow> string"
  Converter :: "string \<Rightarrow> error + (string \<Rightarrow> string)"

subsection \<open>The resolution loop\<close>

text \<open>
  \<^verbatim>\<open>for i := 0; i < len(enum.Values); i++ { value := enum.Values[i]; ...; enum.Values[i] = value }\<close>
  The body either returns an error (the function returns at once, with the values
  before \<open>i\<close> already overwritten in the caller's \<^verbatim>\<open>*EnumData\<close>) or yields the value to
  store. The result is the list as the loop leaves it, and the error if any.
\<close>

function values_loop ::
  "(nat \<Rightarrow> EnumValue \<Rightarrow> error + EnumValue) \<Rightarrow> nat \<Rightarrow> EnumValue list
    \<Rightarrow> EnumValue list \<times> error option" where
  "values_loop body i vs =
     (if i < length vs then
        (case body i (vs ! i) of
           Inl e \<Rightarrow> (vs, Some e)
         | Inr value \<Rightarrow> values_loop body (Suc i) (vs[i := value]))
      else (vs, None))"
  by pat_completeness auto
termination
  by (relation "measure (\<lambda>(body, i, vs). length vs - i)") auto

subsection \<open>processEnum of cmd/enumer/main.go (lines 274-293)\<close>

definition processEnum_value ::
  "stringer_pkg \<Rightarrow> 'c caser_pkg \<Rightarrow> nat \<Rightarrow> EnumValue \<Rightarrow> error + EnumValue" where
  "processEnum_value st ca i value =
     (if IsEmpty st (Name value) \<and> IsEmpty st (Serialized value) then
        Inl (InvalidValues i)
      else if IsEmpty st (Name value) \<and> IsDefined st (Serialized value) then
        (let value = value\<lparr>Name := ReplaceNonLanguageCharacters st (Serialized value) '' '' ''_''\<rparr>;
             value = value\<lparr>Name := Convert ca (Name value) (CaseTypes_Phrase ca) (CaseTypes_Pascal ca)\<rparr>
         in Inr value)
      else if IsDefined st (Name value) \<and> IsEmpty st (Serialized value) then
        (let value = value\<lparr>Serialized := RemoveNonLanguageCharacters st (Name value) ''_''\<rparr>;
             value = value\<lparr>Serialized := PascalToKebabLower ca (Serialized value)\<rparr>;
             value = value\<lparr>Name := RemoveNonLanguageCharacters st (Name value) ''_''\<rparr>;
             value = value\<lparr>Name := RemoveSpace st (Name value)\<rparr>
         in Inr value)
      else if IsDefined st (Name value) \<and> IsDefined st (Serialized value) then
        (let value = value\<lparr>Name := RemoveNonLanguageCharacters st (Name value) ''_''\<rparr>;
             value = value\<lparr>Name := RemoveSpace st (Name value)\<rparr>
         in Inr value)
      else Inr value)"

text \<open>
  The part of \<^verbatim>\<open>processEnum\<close> that resolves the values. The function works on the
  caller's \<^verbatim>\<open>*EnumData\<close>: the result is that structure as the function leaves it,
  and the error it returns. Reading the configuration file, the defaults of package
  and type name and the header are outside the model.
\<close>

definition processEnum ::
  "stringer_pkg \<Rightarrow> 'c caser_pkg \<Rightarrow> EnumData \<Rightarrow> EnumData \<times> error option" where
  "processEnum st ca enum =
     (case values_loop (processEnum_value st ca) 0 (Values enum) of
        (vs, err) \<Rightarrow> (enum\<lparr>Values := vs\<rparr>, err))"

subsection \<open>processEnum of the older main.go (lines 258-312)\<close>

text \<open>
  \<^verbatim>\<open>typeConverter\<close> is \<^verbatim>\<open>caser.Converter(enum.Serialize.Type)\<close> when that field is not
  \<^verbatim>\<open>""\<close>, else \<^verbatim>\<open>caser.PhraseToPascal\<close>; \<^verbatim>\<open>valueConverter\<close> is
  \<^verbatim>\<open>caser.Converter(enum.Serialize.Value)\<close> when that field is not empty, else
  \<^verbatim>\<open>passthrough\<close>. A failing lookup returns its error before any value is resolved.
\<close>

definition passthrough :: "string \<Rightarrow> string" where
  "passthrough s = s"

definition older_typeConverter :: "'c caser_pkg \<Rightarrow> EnumData \<Rightarrow> error + (string \<Rightarrow> string)" where
  "older_typeConverter ca enum =
     (if Serialize_Type enum \<noteq> '''' then Converter ca (Serialize_Type enum)
      else Inr (PhraseToPascal ca))"

definition older_valueConverter ::
  "stringer_pkg \<Rightarrow> 'c caser_pkg \<Rightarrow> EnumData \<Rightarrow> error + (string \<Rightarrow> string)" where
  "older_valueConverter st ca enum =
     (if \<not> IsEmpty st (Serialize_Value enum) then Converter ca (Serialize_Value enum)
      else Inr passthrough)"

definition older_processEnum_value ::
  "stringer_pkg \<Rightarrow> (string \<Rightarrow> string) \<Rightarrow> (string \<Rightarrow> string) \<Rightarrow> nat \<Rightarrow> EnumValue
    \<Rightarrow> error + EnumValue" where
  "older_processEnum_value st typeConverter valueConverter i value =
     (if IsEmpty st (Name value) \<and> IsEmpty st (Serialized value) then
        Inl (InvalidValues i)
      else if IsEmpty st (Name value) \<and> \<not> IsEmpty st (Serialized value) then
        (let value = value\<lparr>Name := valueConverter (Serialized value)\<rparr>;
             value = value\<lparr>Name := RemoveSymbols st (Name value)\<rparr>;
             value = value\<lparr>Name := RemoveSpace st (Name value)\<rparr>
         in Inr value)
      else if \<not> IsEmpty st (Name value) \<and> IsEmpty st (Serialized value) then
        Inr (value\<lparr>Serialized := typeConverter (Name value)\<rparr>)
      else Inr value)"

definition older_processEnum ::
  "stringer_pkg \<Rightarrow> 'c caser_pkg \<Rightarrow> EnumData \<Rightarrow> EnumData \<times> error option" where
  "older_processEnum st ca enum =
     (case older_typeConverter ca enum of
        Inl err \<Rightarrow> (enum, Some err)
      | Inr typeConverter \<Rightarrow>
          (case older_valueConverter st ca enum of
             Inl err \<Rightarrow> (enum, Some err)
           | Inr valueConverter \<Rightarrow>
               (case values_loop (older_processEnum_value st typeConverter valueConverter) 0
                       (Values enum) of
                  (vs, err) \<Rightarrow> (enum\<lparr>Values := vs\<rparr>, err))))"

subsection \<open>Package enumer: Join and IsEq\<close>

text \<open>\<^verbatim>\<open>strings.Join\<close>: the elements with \<open>sep\<close> between each two.\<close>

fun strings_Join :: "string list \<Rightarrow> string \<Rightarrow> string" where
  "strings_Join [] sep = ''''"
| "strings_Join [s] sep = s"
| "strings_Join (s # t # ss) sep = s @ sep @ strings_Join (t # ss) sep"

text \<open>\<^verbatim>\<open>enumer.Join\<close> converts each value to \<^verbatim>\<open>string\<close> and calls \<^verbatim>\<open>strings.Join\<close>.\<close>

definition Join :: "string list \<Rightarrow> string \<Rightarrow> string" where
  "Join values sep = strings_Join (map (\<lambda>value. value) values) sep"

text \<open>
  \<^verbatim>\<open>enumer.IsEq\<close>. \<^verbatim>\<open>strings.ToLower\<close> and \<^verbatim>\<open>strings.ToUpper\<close> are parameters.
  The source computes \<^verbatim>\<open>upper\<close> with \<^verbatim>\<open>strings.ToLower\<close> too.
\<close>

definition IsEq ::
  "(string \<Rightarrow> string) \<Rightarrow> (string \<Rightarrow> string) \<Rightarrow> string \<Rightarrow> string \<Rightarrow> bool" where
  "IsEq ToLower ToUpper a =
     (let as = a; lower = ToLower as; upper = ToLower as
      in (\<lambda>b. let bs = b in as = bs \<or> lower = ToLower bs \<or> upper = ToUpper bs))"

subsection \<open>The companion generated by the older processTemplate\<close>

text \<open>
  \<^verbatim>\<open>init\<close> sets \<^verbatim>\<open>Values\<close> to the fields of the companion in declaration order; the
  field of a value holds its serialized text.
\<close>

definition older_Values :: "EnumValue list \<Rightarrow> string list" where
  "older_Values vs = map Serialized vs"

definition older_newErr :: "string \<Rightarrow> string list \<Rightarrow> error" where
  "older_newErr a values = MustBeOneOf a (Join values '', '')"

text \<open>The loop of \<^verbatim>\<open>ParseFrom\<close> over \<open>values\<close>, on the variables \<open>(found, ok)\<close>.\<close>

fun older_ParseFrom_loop ::
  "(string \<Rightarrow> string) \<Rightarrow> (string \<Rightarrow> string) \<Rightarrow> string \<Rightarrow> string list \<Rightarrow> string \<times> bool
    \<Rightarrow> string \<times> bool" where
  "older_ParseFrom_loop ToLower ToUpper v [] (found, ok) = (found, ok)"
| "older_ParseFrom_loop ToLower ToUpper v (value # rest) (found, ok) =
     (if IsEq ToLower ToUpper v value then (value, True)
      else older_ParseFrom_loop ToLower ToUpper v rest (found, ok))"

definition older_ParseFrom ::
  "(string \<Rightarrow> string) \<Rightarrow> (string \<Rightarrow> string) \<Rightarrow> string \<Rightarrow> string list
    \<Rightarrow> string \<times> error option" where
  "older_ParseFrom ToLower ToUpper v values =
     (case older_ParseFrom_loop ToLower ToUpper v values ('''', False) of
        (found, ok) \<Rightarrow>
          if \<not> ok then (found, Some (older_newErr v values)) else (found, None))"

definition older_Parse ::
  "(string \<Rightarrow> string) \<Rightarrow> (string \<Rightarrow> string) \<Rightarrow> EnumValue list \<Rightarrow> string
    \<Rightarrow> string \<times> error option" where
  "older_Parse ToLower ToUpper vs v = older_ParseFrom ToLower ToUpper v (older_Values vs)"

fun older_IsFrom ::
  "(string \<Rightarrow> string) \<Rightarrow> (string \<Rightarrow> string) \<Rightarrow> string \<Rightarrow> string list \<Rightarrow> bool" where
  "older_IsFrom ToLower ToUpper v [] = False"
| "older_IsFrom ToLower ToUpper v (value # rest) =
     (if IsEq ToLower ToUpper v value then True else older_IsFrom ToLower ToUpper v rest)"

definition older_Is ::
  "(string \<Rightarrow> string) \<Rightarrow> (string \<Rightarrow> string) \<Rightarrow> EnumValue list \<Rightarrow> string \<Rightarrow> bool" where
  "older_Is ToLower ToUpper vs v = older_IsFrom ToLower ToUpper v (older_Values vs)"

subsection \<open>The companion generated by processTemplate of cmd/enumer/main.go\<close>

text \<open>
  The companion struct has one field per value, holding its serialized text, and the
  table \<^verbatim>\<open>parseMap\<close> from a value to its matchers. \<open>members\<close> are the value fields in
  declaration order; \<^verbatim>\<open>Values()\<close> returns them.
\<close>

record companion =
  members :: "string list"
  parseMap :: "string \<rightharpoonup> string list"

text \<open>
  \<^verbatim>\<open>init\<close> assigns \<^verbatim>\<open>parseMap\<close> a map literal with one entry per value: the key is the
  value's field, the matchers are the serialized text, the name and the
  \<^verbatim>\<open>ParseFrom\<close> entries. (The guard \<^verbatim>\<open>d[jen.Lit(value.Name)]\<close> looks up a fresh
  statement and never finds one.) \<^verbatim>\<open>jen\<close> renders the entries of a \<^verbatim>\<open>Dict\<close> sorted by
  the rendered key, here by name; Go evaluates them in that order, and a later
  entry with an equal key replaces the earlier one. (Two values with one name give
  the struct a repeated field, which Go rejects: a companion exists for pairwise
  different names only.)
\<close>

definition matchers_of :: "EnumValue \<Rightarrow> string list" where
  "matchers_of value = Serialized value # Name value # ParseFrom value"

definition companion_init :: "EnumValue list \<Rightarrow> companion" where
  "companion_init vs =
     \<lparr>members = map Serialized vs,
      parseMap = fold (\<lambda>value m. m(Serialized value \<mapsto> matchers_of value))
                   (sort_key Name vs) Map.empty\<rparr>"

definition companion_Values :: "companion \<Rightarrow> string list" where
  "companion_Values t = members t"

text \<open>\<^verbatim>\<open>errf\<close>: the matchers of every item that has an entry, joined by a comma.\<close>

fun errf_xs :: "companion \<Rightarrow> string list \<Rightarrow> string list \<Rightarrow> string list" where
  "errf_xs t [] xs = xs"
| "errf_xs t (item # rest) xs =
     (case parseMap t item of
        Some x \<Rightarrow> errf_xs t rest (xs @ x)
      | None \<Rightarrow> errf_xs t rest xs)"

definition companion_errf :: "companion \<Rightarrow> string \<Rightarrow> string list \<Rightarrow> error" where
  "companion_errf t v items = NotOneOf v (strings_Join (errf_xs t items []) '','')"

text \<open>The inner loop of \<^verbatim>\<open>ParseFrom\<close> over the matchers of one item.\<close>

fun matchers_loop :: "string \<Rightarrow> string \<Rightarrow> string list \<Rightarrow> string \<times> bool \<Rightarrow> string \<times> bool" where
  "matchers_loop v item [] (found, ok) = (found, ok)"
| "matchers_loop v item (matcher # rest) (found, ok) =
     (if v = matcher then (item, True) else matchers_loop v item rest (found, ok))"

text \<open>
  The outer loop of \<^verbatim>\<open>ParseFrom\<close>. Its body ends with \<^verbatim>\<open>return found, nil\<close>: the first
  item that has an entry in \<^verbatim>\<open>parseMap\<close> decides the result. \<open>items\<close> is the whole
  argument (for \<^verbatim>\<open>errf\<close>), the list after it what is left to iterate.
\<close>

fun companion_ParseFrom_loop ::
  "companion \<Rightarrow> string \<Rightarrow> string list \<Rightarrow> string list \<Rightarrow> string \<times> bool
    \<Rightarrow> string \<times> error option" where
  "companion_ParseFrom_loop t v items [] (found, ok) = (found, None)"
| "companion_ParseFrom_loop t v items (item # rest) (found, ok) =
     (case parseMap t item of
        None \<Rightarrow> companion_ParseFrom_loop t v items rest (found, ok)
      | Some matchers \<Rightarrow>
          (case matchers_loop v item matchers (found, ok) of
             (found, ok) \<Rightarrow>
               if \<not> ok then (found, Some (companion_errf t v items)) else (found, None)))"

definition companion_ParseFrom :: "companion \<Rightarrow> string \<Rightarrow> string list \<Rightarrow> string \<times> error option" where
  "companion_ParseFrom t v items = companion_ParseFrom_loop t v items items ('''', False)"

definition companion_Parse :: "companion \<Rightarrow> string \<Rightarrow> string \<times> error option" where
  "companion_Parse t v = companion_ParseFrom t v (companion_Values t)"

definition companion_IsFrom :: "companion \<Rightarrow> string \<Rightarrow> string list \<Rightarrow> bool" where
  "companion_IsFrom t v items = (case companion_ParseFrom t v items of (_, err) \<Rightarrow> err = None)"

definition companion_Is :: "companion \<Rightarrow> string \<Rightarrow> bool" where
  "companion_Is t v = companion_IsFrom t v (companion_Values t)"

subsection \<open>main of cmd/enumer/main.go\<close>

text \<open>
  \<^verbatim>\<open>main\<close> calls \<^verbatim>\<open>processEnum\<close>; on an error \<^verbatim>\<open>handleErr\<close> prints it and exits with
  status 1, so \<^verbatim>\<open>processTemplate\<close> and \<^verbatim>\<open>processWrite\<close> never run. Otherwise the
  template is generated from the resolved values; the generated program is stood for
  by its companion.
\<close>

definition enumer_main :: "stringer_pkg \<Rightarrow> 'c caser_pkg \<Rightarrow> EnumData \<Rightarrow> error + companion" where
  "enumer_main st ca enum =
     (case processEnum st ca enum of
        (enum', Some err) \<Rightarrow> Inl err
      | (enum', None) \<Rightarrow> Inr (companion_init (Values enum')))"

subsection \<open>enumer.Scan\<close>

text \<open>
  The argument of \<^verbatim>\<open>Scan\<close> is an \<^verbatim>\<open>interface{}\<close>: \<^verbatim>\<open>nil\<close>, a \<^verbatim>\<open>string\<close>, or a value of
  another dynamic type \<open>'x\<close>. \<^verbatim>\<open>driver.String.ConvertValue\<close> is a parameter. \<open>e\<close> is the
  content of the pointer \<^verbatim>\<open>e *E\<close>; the result is its content afterwards and the
  error returned.
\<close>

datatype 'x any = AnyNil | AnyString string | AnyOther 'x

definition Scan ::
  "('x any \<Rightarrow> error + 'x any) \<Rightarrow> 'x any \<Rightarrow> string \<Rightarrow> (string \<Rightarrow> string \<times> error option)
    \<Rightarrow> string \<times> error option" where
  "Scan ConvertValue value e parser =
     (if value = AnyNil then (e, Some CannotBeNull)
      else
        (case ConvertValue value of
           Inl err \<Rightarrow> (e, Some err)
         | Inr dv \<Rightarrow>
             (case dv of
                AnyString s \<Rightarrow>
                  (case parser s of
                     (p, Some err) \<Rightarrow> (e, Some err)
                   | (p, None) \<Rightarrow> (p, None))
              | _ \<Rightarrow> (e, Some NotAString))))"

subsection \<open>Stand-ins for the functions of other packages\<close>

text \<open>
  Modelled from the spec: the text transforms of \<^verbatim>\<open>strings\<close>, \<^verbatim>\<open>stringer\<close> and \<^verbatim>\<open>caser\<close>
  ("strip symbols and whitespace", "phrase-to-pascal", "identity/passthrough",
  "standard lower-case normalization"), which the sources call and do not contain,
  on ASCII text. They instantiate the parameters where a statement is evaluated at a
  concrete input; no general statement below depends on them.
\<close>

definition ascii_upper :: string where
  "ascii_upper = ''ABCDEFGHIJKLMNOPQRSTUVWXYZ''"

definition ascii_lower :: string where
  "ascii_lower = ''abcdefghijklmnopqrstuvwxyz''"

definition ascii_digits :: string where
  "ascii_digits = ''0123456789''"

definition lower_char :: "char \<Rightarrow> char" where
  "lower_char c = (case map_of (zip ascii_upper ascii_lower) c of Some d \<Rightarrow> d | None \<Rightarrow> c)"

definition upper_char :: "char \<Rightarrow> char" where
  "upper_char c = (case map_of (zip ascii_lower ascii_upper) c of Some d \<Rightarrow> d | None \<Rightarrow> c)"

definition ascii_ToLower :: "string \<Rightarrow> string" where
  "ascii_ToLower s = map lower_char s"

definition ascii_ToUpper :: "string \<Rightarrow> string" where
  "ascii_ToUpper s = map upper_char s"

definition language_char :: "char \<Rightarrow> bool" where
  "language_char c = (c \<in> set (ascii_upper @ ascii_lower @ ascii_digits))"

fun pascal_from :: "bool \<Rightarrow> string \<Rightarrow> string" where
  "pascal_from up [] = []"
| "pascal_from up (c # cs) =
     (if c = CHR '' '' then pascal_from True cs
      else (if up then upper_char c else c) # pascal_from False cs)"

fun kebab_lower_from :: "bool \<Rightarrow> string \<Rightarrow> string" where
  "kebab_lower_from first [] = []"
| "kebab_lower_from first (c # cs) =
     (if c \<in> set ascii_upper
      then (if first then [] else ''-'') @ lower_char c # kebab_lower_from False cs
      else c # kebab_lower_from False cs)"

definition ascii_stringer :: stringer_pkg where
  "ascii_stringer =
     \<lparr>IsEmpty = (\<lambda>s. s = []),
      IsDefined = (\<lambda>s. s \<noteq> []),
      RemoveSymbols = filter (\<lambda>c. language_char c \<or> c = CHR '' ''),
      RemoveSpace = filter (\<lambda>c. c \<noteq> CHR '' ''),
      RemoveNonLanguageCharacters = (\<lambda>s keep. filter (\<lambda>c. language_char c \<or> c \<in> set keep) s),
      ReplaceNonLanguageCharacters =
        (\<lambda>s new keep. concat (map (\<lambda>c. if language_char c \<or> c \<in> set keep then [c] else new) s))\<rparr>"

definition ascii_caser :: "unit caser_pkg" where
  "ascii_caser =
     \<lparr>Convert = (\<lambda>s from to. pascal_from True s),
      CaseTypes_Phrase = (),
      CaseTypes_Pascal = (),
      PascalToKebabLower = kebab_lower_from True,
      PhraseToPascal = pascal_from True,
      Converter = (\<lambda>name. if name = ''pascal-to-kebab-lower'' then Inr (kebab_lower_from True)
                          else Inl (LibraryError name))\<rparr>"

subsection \<open>Example specifications\<close>

text \<open>
  The specifications at which the statements below are evaluated: a value given by
  its serialized text and two aliases, a value given by its name, and a value with
  both; the same with a value that has neither at index 2; and two values whose
  serialized texts differ by letter case only.
\<close>

definition example_enum :: EnumData where
  "example_enum =
     \<lparr>Values =
        [\<lparr>Name = '''', Serialized = ''done'', ParseFrom = [''complete'', ''finished'']\<rparr>,
         \<lparr>Name = ''In Progress'', Serialized = '''', ParseFrom = []\<rparr>,
         \<lparr>Name = ''Todo'', Serialized = ''to-do'', ParseFrom = []\<rparr>],
      Serialize_Type = '''', Serialize_Value = ''''\<rparr>"

definition invalid_enum :: EnumData where
  "invalid_enum =
     \<lparr>Values =
        [\<lparr>Name = '''', Serialized = ''done'', ParseFrom = [''complete'', ''finished'']\<rparr>,
         \<lparr>Name = ''In Progress'', Serialized = '''', ParseFrom = []\<rparr>,
         \<lparr>Name = '''', Serialized = '''', ParseFrom = []\<rparr>,
         \<lparr>Name = ''Todo'', Serialized = ''to-do'', ParseFrom = []\<rparr>],
      Serialize_Type = '''', Serialize_Value = ''''\<rparr>"

definition ambiguous_enum :: EnumData where
  "ambiguous_enum =
     \<lparr>Values =
        [\<lparr>Name = '''', Serialized = ''Active'', ParseFrom = []\<rparr>,
         \<lparr>Name = '''', Serialized = ''active'', ParseFrom = []\<rparr>],
      Serialize_Type = '''', Serialize_Value = ''''\<rparr>"

section \<open>Properties\<close>

subsection \<open>The resolution loop\<close>

declare values_loop.simps [simp del]

lemma values_loop_length: "length (fst (values_loop body i vs)) = length vs"
proof (induction body i vs rule: values_loop.induct)
  case (1 body i vs)
  show ?case
  proof (cases "i < length vs")
    case False
    then show ?thesis by (simp add: values_loop.simps [of body i vs])
  next
    case True
    show ?thesis
    proof (cases "body i (vs ! i)")
      case (Inl e)
      with True show ?thesis by (simp add: values_loop.simps [of body i vs])
    next
      case (Inr w)
      with True "1.IH" [OF True Inr] show ?thesis
        by (simp add: values_loop.simps [of body i vs])
    qed
  qed
qed

lemma values_loop_ok:
  "(\<forall>j. i \<le> j \<and> j < length vs \<longrightarrow> \<not> isl (body j (vs ! j))) \<Longrightarrow>
   values_loop body i vs =
     (map (\<lambda>j. if j < i then vs ! j else projr (body j (vs ! j))) [0..<length vs], None)"
proof (induction body i vs rule: values_loop.induct)
  case (1 body i vs)
  show ?case
  proof (cases "i < length vs")
    case False
    then have "map (\<lambda>j. if j < i then vs ! j else projr (body j (vs ! j))) [0..<length vs] = vs"
      by (intro nth_equalityI) auto
    with False show ?thesis by (simp add: values_loop.simps [of body i vs])
  next
    case True
    with "1.prems" have "\<not> isl (body i (vs ! i))" by simp
    then obtain w where Inr: "body i (vs ! i) = Inr w" by (cases "body i (vs ! i)") auto
    have "\<forall>j. Suc i \<le> j \<and> j < length (vs[i := w]) \<longrightarrow> \<not> isl (body j (vs[i := w] ! j))"
      using "1.prems" by auto
    from "1.IH" [OF True Inr this]
    have "values_loop body i vs =
        (map (\<lambda>j. if j < Suc i then vs[i := w] ! j else projr (body j (vs[i := w] ! j)))
          [0..<length vs], None)"
      using True Inr by (simp add: values_loop.simps [of body i vs])
    moreover have "map (\<lambda>j. if j < Suc i then vs[i := w] ! j else projr (body j (vs[i := w] ! j)))
          [0..<length vs] = map (\<lambda>j. if j < i then vs ! j else projr (body j (vs ! j))) [0..<length vs]"
      using True Inr by (intro nth_equalityI) (auto simp: nth_list_update less_Suc_eq)
    ultimately show ?thesis by simp
  qed
qed

lemma values_loop_fails:
  "i \<le> k \<Longrightarrow> k < length vs \<Longrightarrow> body k (vs ! k) = Inl e \<Longrightarrow>
   (\<forall>j. i \<le> j \<and> j < k \<longrightarrow> \<not> isl (body j (vs ! j))) \<Longrightarrow>
   values_loop body i vs =
     (map (\<lambda>j. if i \<le> j \<and> j < k then projr (body j (vs ! j)) else vs ! j) [0..<length vs], Some e)"
proof (induction body i vs rule: values_loop.induct)
  case (1 body i vs)
  from "1.prems" have lt: "i < length vs" by simp
  show ?case
  proof (cases "i = k")
    case True
    have "map (\<lambda>j. if i \<le> j \<and> j < k then projr (body j (vs ! j)) else vs ! j) [0..<length vs] = vs"
      using True by (intro nth_equalityI) auto
    with True "1.prems" show ?thesis by (simp add: values_loop.simps [of body k vs])
  next
    case False
    with "1.prems" have ik: "i < k" by simp
    with "1.prems" have "\<not> isl (body i (vs ! i))" by simp
    then obtain w where Inr: "body i (vs ! i) = Inr w" by (cases "body i (vs ! i)") auto
    have a: "Suc i \<le> k" using ik by simp
    have b: "k < length (vs[i := w])" using "1.prems" by simp
    have c: "body k (vs[i := w] ! k) = Inl e" using "1.prems" ik by simp
    have d: "\<forall>j. Suc i \<le> j \<and> j < k \<longrightarrow> \<not> isl (body j (vs[i := w] ! j))"
      using "1.prems" by auto
    from "1.IH" [OF lt Inr a b c d]
    have "values_loop body i vs =
        (map (\<lambda>j. if Suc i \<le> j \<and> j < k then projr (body j (vs[i := w] ! j)) else vs[i := w] ! j)
          [0..<length vs], Some e)"
      using lt Inr by (simp add: values_loop.simps [of body i vs])
    moreover have "map (\<lambda>j. if Suc i \<le> j \<and> j < k then projr (body j (vs[i := w] ! j)) else vs[i := w] ! j)
          [0..<length vs] = map (\<lambda>j. if i \<le> j \<and> j < k then projr (body j (vs ! j)) else vs ! j) [0..<length vs]"
      using lt Inr ik by (intro nth_equalityI) (auto simp: nth_list_update)
    ultimately show ?thesis by simp
  qed
qed

subsection \<open>Resolution of the values\<close>

lemma values_loop_None_nth:
  assumes "values_loop body 0 vs = (vs', None)" and "j < length vs"
  shows "body j (vs ! j) = Inr (vs' ! j)"
proof -
  have all: "\<forall>j. 0 \<le> j \<and> j < length vs \<longrightarrow> \<not> isl (body j (vs ! j))"
  proof (rule ccontr)
    assume "\<not> ?thesis"
    then have ex: "\<exists>k. k < length vs \<and> isl (body k (vs ! k))" by auto
    define k where "k = (LEAST k. k < length vs \<and> isl (body k (vs ! k)))"
    from ex have k: "k < length vs \<and> isl (body k (vs ! k))"
      unfolding k_def by (rule LeastI_ex)
    have least: "\<not> (j < length vs \<and> isl (body j (vs ! j)))" if "j < k" for j
      using that unfolding k_def by (rule not_less_Least)
    from k obtain e where e: "body k (vs ! k) = Inl e" by (cases "body k (vs ! k)") auto
    have "\<forall>j. 0 \<le> j \<and> j < k \<longrightarrow> \<not> isl (body j (vs ! j))"
      using least k by auto
    with values_loop_fails [where body = body and i = 0 and k = k and vs = vs and e = e] k e
    have "snd (values_loop body 0 vs) = Some e" by simp
    with assms show False by simp
  qed
  from values_loop_ok [where body = body and i = 0 and vs = vs] all assms show ?thesis
    by (cases "body j (vs ! j)") auto
qed

lemma values_loop_None_iff:
  "snd (values_loop body 0 vs) = None \<longleftrightarrow> (\<forall>j < length vs. \<not> isl (body j (vs ! j)))"
proof
  assume "snd (values_loop body 0 vs) = None"
  then have "values_loop body 0 vs = (fst (values_loop body 0 vs), None)"
    by (metis prod.collapse)
  from values_loop_None_nth [OF this] show "\<forall>j < length vs. \<not> isl (body j (vs ! j))"
    by auto
next
  assume "\<forall>j < length vs. \<not> isl (body j (vs ! j))"
  then have "\<forall>j. 0 \<le> j \<and> j < length vs \<longrightarrow> \<not> isl (body j (vs ! j))" by simp
  with values_loop_ok [where body = body and i = 0 and vs = vs]
  show "snd (values_loop body 0 vs) = None" by simp
qed

lemma processEnum_value_isl:
  "isl (processEnum_value st ca i v) \<longleftrightarrow> IsEmpty st (Name v) \<and> IsEmpty st (Serialized v)"
  by (simp add: processEnum_value_def Let_def)

lemma processEnum_value_invalid:
  "IsEmpty st (Name v) \<and> IsEmpty st (Serialized v) \<Longrightarrow>
   processEnum_value st ca i v = Inl (InvalidValues i)"
  by (simp add: processEnum_value_def)

lemma older_processEnum_value_isl:
  "isl (older_processEnum_value st tc vc i v) \<longleftrightarrow> IsEmpty st (Name v) \<and> IsEmpty st (Serialized v)"
  by (simp add: older_processEnum_value_def Let_def)

lemma processEnum_snd:
  "snd (processEnum st ca enum) = snd (values_loop (processEnum_value st ca) 0 (Values enum))"
  by (cases "values_loop (processEnum_value st ca) 0 (Values enum)") (simp add: processEnum_def)

lemma processEnum_Values:
  "Values (fst (processEnum st ca enum))
     = fst (values_loop (processEnum_value st ca) 0 (Values enum))"
  by (cases "values_loop (processEnum_value st ca) 0 (Values enum)") (simp add: processEnum_def)

lemma enumer_main_error:
  "snd (processEnum st ca enum) = Some err \<Longrightarrow> enumer_main st ca enum = Inl err"
  by (cases "processEnum st ca enum") (simp add: enumer_main_def)

lemma processEnum_success_nth:
  assumes "processEnum st ca enum = (enum', None)" and "i < length (Values enum)"
  shows "processEnum_value st ca i (Values enum ! i) = Inr (Values enum' ! i)"
proof -
  obtain vs' where l: "values_loop (processEnum_value st ca) 0 (Values enum) = (vs', None)"
    and e: "enum' = enum\<lparr>Values := vs'\<rparr>"
    using assms(1) by (auto simp: processEnum_def split: prod.splits)
  from values_loop_None_nth [OF l assms(2)] e show ?thesis by simp
qed


text \<open>
  Claim C6. When the value at index \<open>i\<close> has neither name nor serialized text, its
  resolution is the error \<^verbatim>\<open>invalid values[i]\<close>; \<^verbatim>\<open>processEnum\<close> returns that error for
  the first such index \<open>k\<close> (which is \<open>i\<close> when no earlier value is invalid), and
  \<^verbatim>\<open>main\<close> then stops: no companion is generated, for any value.
\<close>

theorem processEnum_invalid_value:
  assumes "i < length (Values enum)"
    and "IsEmpty st (Name (Values enum ! i)) \<and> IsEmpty st (Serialized (Values enum ! i))"
  shows "processEnum_value st ca i (Values enum ! i) = Inl (InvalidValues i) \<and>
    (\<exists>k\<le>i. IsEmpty st (Name (Values enum ! k)) \<and> IsEmpty st (Serialized (Values enum ! k)) \<and>
       (\<forall>j<k. \<not> (IsEmpty st (Name (Values enum ! j)) \<and> IsEmpty st (Serialized (Values enum ! j)))) \<and>
       snd (processEnum st ca enum) = Some (InvalidValues k) \<and>
       enumer_main st ca enum = Inl (InvalidValues k)) \<and>
    ((\<forall>j<i. \<not> (IsEmpty st (Name (Values enum ! j)) \<and> IsEmpty st (Serialized (Values enum ! j))))
       \<longrightarrow> snd (processEnum st ca enum) = Some (InvalidValues i) \<and>
           enumer_main st ca enum = Inl (InvalidValues i))"
proof -
  let ?vs = "Values enum"
  let ?bad = "\<lambda>k. IsEmpty st (Name (?vs ! k)) \<and> IsEmpty st (Serialized (?vs ! k))"
  define k where "k = (LEAST k. ?bad k)"
  have bad_k: "?bad k" unfolding k_def using assms(2) by (rule LeastI)
  have k_le: "k \<le> i" unfolding k_def using assms(2) by (rule Least_le)
  have before: "\<not> ?bad j" if "j < k" for j
    using that unfolding k_def by (rule not_less_Least)
  have k_lt: "k < length ?vs" using k_le assms(1) by simp
  have body_k: "processEnum_value st ca k (?vs ! k) = Inl (InvalidValues k)"
    using bad_k by (rule processEnum_value_invalid)
  have "\<forall>j. 0 \<le> j \<and> j < k \<longrightarrow> \<not> isl (processEnum_value st ca j (?vs ! j))"
    using before by (simp add: processEnum_value_isl)
  with values_loop_fails
         [where body = "processEnum_value st ca" and i = 0 and k = k and vs = ?vs
            and e = "InvalidValues k"]
       k_lt body_k
  have loop: "snd (values_loop (processEnum_value st ca) 0 ?vs) = Some (InvalidValues k)"
    by simp
  then have err: "snd (processEnum st ca enum) = Some (InvalidValues k)"
    by (simp add: processEnum_snd)
  then have main: "enumer_main st ca enum = Inl (InvalidValues k)"
    by (rule enumer_main_error)
  have first: "k = i" if "\<forall>j<i. \<not> ?bad j"
    using that bad_k k_le by (cases "k = i") auto
  show ?thesis
    using processEnum_value_invalid [OF assms(2)] bad_k k_le before err main first by blast
qed

theorem processEnum_invalid_value_witness:
  "snd (processEnum ascii_stringer ascii_caser invalid_enum) = Some (InvalidValues 2) \<and>
   enumer_main ascii_stringer ascii_caser invalid_enum = Inl (InvalidValues 2)"
proof -
  have a: "2 < length (Values invalid_enum)" by code_simp
  have b: "IsEmpty ascii_stringer (Name (Values invalid_enum ! 2)) \<and>
           IsEmpty ascii_stringer (Serialized (Values invalid_enum ! 2))"
    by code_simp
  have c0: "\<not> (IsEmpty ascii_stringer (Name (Values invalid_enum ! 0)) \<and>
               IsEmpty ascii_stringer (Serialized (Values invalid_enum ! 0)))"
    by code_simp
  have c1: "\<not> (IsEmpty ascii_stringer (Name (Values invalid_enum ! 1)) \<and>
               IsEmpty ascii_stringer (Serialized (Values invalid_enum ! 1)))"
    by code_simp
  have c: "\<forall>j<2. \<not> (IsEmpty ascii_stringer (Name (Values invalid_enum ! j)) \<and>
               IsEmpty ascii_stringer (Serialized (Values invalid_enum ! j)))"
  proof (intro allI impI)
    fix j :: nat
    assume "j < 2"
    then have "j = 0 \<or> j = 1" by auto
    with c0 c1 show "\<not> (IsEmpty ascii_stringer (Name (Values invalid_enum ! j)) \<and>
               IsEmpty ascii_stringer (Serialized (Values invalid_enum ! j)))"
      by auto
  qed
  show ?thesis
    using processEnum_invalid_value [where ca = ascii_caser, OF a b] c by blast
qed

lemma processEnum_value_keeps_Serialized:
  "\<not> IsEmpty st (Serialized v) \<Longrightarrow> processEnum_value st ca i v = Inr w \<Longrightarrow>
   Serialized w = Serialized v"
  by (auto simp: processEnum_value_def Let_def split: if_splits)

text \<open>
  Claim C2, as the code has it. The resolution has no uniqueness check: it fails
  exactly when some value has neither name nor serialized text. Otherwise it succeeds,
  keeps every value and leaves every supplied serialized text unchanged, also when two
  serialized texts differ by letter case only.
\<close>

theorem processEnum_fails_only_on_invalid_value:
  "(snd (processEnum st ca enum) = None \<longleftrightarrow>
      (\<forall>v \<in> set (Values enum). \<not> (IsEmpty st (Name v) \<and> IsEmpty st (Serialized v)))) \<and>
   (snd (processEnum st ca enum) = None \<longrightarrow>
      length (Values (fst (processEnum st ca enum))) = length (Values enum) \<and>
      (\<forall>i < length (Values enum). \<not> IsEmpty st (Serialized (Values enum ! i)) \<longrightarrow>
         Serialized (Values (fst (processEnum st ca enum)) ! i) = Serialized (Values enum ! i)))"
proof -
  let ?vs = "Values enum"
  let ?res = "processEnum st ca enum"
  have iff: "snd ?res = None \<longleftrightarrow>
      (\<forall>v \<in> set ?vs. \<not> (IsEmpty st (Name v) \<and> IsEmpty st (Serialized v)))"
    by (simp add: processEnum_snd values_loop_None_iff processEnum_value_isl all_set_conv_all_nth)
  have len: "length (Values (fst ?res)) = length ?vs"
    by (simp add: processEnum_Values values_loop_length)
  have keep: "Serialized (Values (fst ?res) ! i) = Serialized (?vs ! i)"
    if ok: "snd ?res = None" and i: "i < length ?vs" and s: "\<not> IsEmpty st (Serialized (?vs ! i))"
    for i
  proof -
    from ok have "?res = (fst ?res, None)" by (metis prod.collapse)
    from processEnum_success_nth [OF this i]
    have "processEnum_value st ca i (?vs ! i) = Inr (Values (fst ?res) ! i)" .
    with s show ?thesis by (rule processEnum_value_keeps_Serialized)
  qed
  show ?thesis using iff len keep by blast
qed

theorem processEnum_fails_only_on_invalid_value_witness:
  "snd (processEnum ascii_stringer ascii_caser ambiguous_enum) = None \<and>
   length (Values (fst (processEnum ascii_stringer ascii_caser ambiguous_enum))) = 2 \<and>
   Serialized (Values (fst (processEnum ascii_stringer ascii_caser ambiguous_enum)) ! 0) = ''Active'' \<and>
   Serialized (Values (fst (processEnum ascii_stringer ascii_caser ambiguous_enum)) ! 1) = ''active''"
proof -
  have a: "\<forall>v \<in> set (Values ambiguous_enum).
      \<not> (IsEmpty ascii_stringer (Name v) \<and> IsEmpty ascii_stringer (Serialized v))"
    by (simp add: ambiguous_enum_def ascii_stringer_def)
  have b: "length (Values ambiguous_enum) = 2"
    and c: "\<not> IsEmpty ascii_stringer (Serialized (Values ambiguous_enum ! 0))"
    and d: "\<not> IsEmpty ascii_stringer (Serialized (Values ambiguous_enum ! 1))"
    and e: "Serialized (Values ambiguous_enum ! 0) = ''Active''"
    and f: "Serialized (Values ambiguous_enum ! 1) = ''active''"
    by (simp_all add: ambiguous_enum_def ascii_stringer_def)
  from processEnum_fails_only_on_invalid_value
         [where st = ascii_stringer and ca = ascii_caser and enum = ambiguous_enum] a
  have ok: "snd (processEnum ascii_stringer ascii_caser ambiguous_enum) = None"
    and rest: "length (Values (fst (processEnum ascii_stringer ascii_caser ambiguous_enum)))
        = length (Values ambiguous_enum) \<and>
      (\<forall>i < length (Values ambiguous_enum).
         \<not> IsEmpty ascii_stringer (Serialized (Values ambiguous_enum ! i)) \<longrightarrow>
         Serialized (Values (fst (processEnum ascii_stringer ascii_caser ambiguous_enum)) ! i)
           = Serialized (Values ambiguous_enum ! i))"
    by blast+
  from rest b c d e f ok show ?thesis by simp
qed

text \<open>
  The claim as stated fails: two values with the serialized texts \<^verbatim>\<open>Active\<close> and
  \<^verbatim>\<open>active\<close>, equal up to letter case, resolve without an error in both generators, and
  both values are kept.
\<close>

theorem ambiguous_values_resolve:
  "processEnum ascii_stringer ascii_caser ambiguous_enum =
     (\<lparr>Values =
         [\<lparr>Name = ''Active'', Serialized = ''Active'', ParseFrom = []\<rparr>,
          \<lparr>Name = ''Active'', Serialized = ''active'', ParseFrom = []\<rparr>],
       Serialize_Type = '''', Serialize_Value = ''''\<rparr>, None) \<and>
   older_processEnum ascii_stringer ascii_caser ambiguous_enum =
     (\<lparr>Values =
         [\<lparr>Name = ''Active'', Serialized = ''Active'', ParseFrom = []\<rparr>,
          \<lparr>Name = ''active'', Serialized = ''active'', ParseFrom = []\<rparr>],
       Serialize_Type = '''', Serialize_Value = ''''\<rparr>, None) \<and>
   ''Active'' \<noteq> ''active'' \<and> ascii_ToLower ''Active'' = ascii_ToLower ''active''"
  by code_simp

text \<open>
  What \<^verbatim>\<open>cmd/enumer/main.go\<close> does for a value given by its serialized text: it has no
  converters to configure, and derives the name with
  \<^verbatim>\<open>stringer.ReplaceNonLanguageCharacters\<close> and \<^verbatim>\<open>caser.Convert\<close> from phrase to Pascal case.
\<close>

lemma processEnum_value_name_from_serialized:
  "IsEmpty st (Name v) \<Longrightarrow> \<not> IsEmpty st (Serialized v) \<Longrightarrow> IsDefined st (Serialized v) \<Longrightarrow>
   processEnum_value st ca i v =
     Inr (v\<lparr>Name := Convert ca (ReplaceNonLanguageCharacters st (Serialized v) '' '' ''_'')
                      (CaseTypes_Phrase ca) (CaseTypes_Pascal ca)\<rparr>)"
  by (simp add: processEnum_value_def Let_def)



text \<open>
  Claim C5, as the code has it. For a value with a name and no serialized text:
  the generator with configurable converters sets the serialized text to
  \<^verbatim>\<open>typeConverter(name)\<close> and nothing else, the name staying exactly as supplied, and
  \<^verbatim>\<open>typeConverter\<close> is \<^verbatim>\<open>caser.PhraseToPascal\<close> when the configuration names none;
  \<^verbatim>\<open>cmd/enumer/main.go\<close> has no \<^verbatim>\<open>typeConverter\<close>: for a name that \<^verbatim>\<open>stringer.IsDefined\<close>
  accepts, it sets the serialized text to
  \<^verbatim>\<open>PascalToKebabLower(RemoveNonLanguageCharacters(name, "_"))\<close> and the name to
  \<^verbatim>\<open>RemoveSpace(RemoveNonLanguageCharacters(name, "_"))\<close>.
\<close>

theorem serialized_from_name:
  assumes "\<not> IsEmpty st (Name v)" and "IsEmpty st (Serialized v)"
  shows "older_processEnum_value st typeConverter valueConverter i v =
           Inr (v\<lparr>Serialized := typeConverter (Name v)\<rparr>) \<and>
         (Serialize_Type enum = '''' \<longrightarrow> older_typeConverter ca enum = Inr (PhraseToPascal ca)) \<and>
         (IsDefined st (Name v) \<longrightarrow>
            processEnum_value st ca' i v =
              Inr (v\<lparr>Serialized := PascalToKebabLower ca' (RemoveNonLanguageCharacters st (Name v) ''_''),
                     Name := RemoveSpace st (RemoveNonLanguageCharacters st (Name v) ''_'')\<rparr>))"
  using assms
  by (simp add: older_processEnum_value_def older_typeConverter_def processEnum_value_def Let_def)

theorem serialized_from_name_witness:
  "older_processEnum_value ascii_stringer (PhraseToPascal ascii_caser) passthrough 1
       \<lparr>Name = ''In Progress'', Serialized = '''', ParseFrom = []\<rparr> =
     Inr \<lparr>Name = ''In Progress'', Serialized = ''InProgress'', ParseFrom = []\<rparr> \<and>
   older_typeConverter ascii_caser example_enum = Inr (PhraseToPascal ascii_caser) \<and>
   processEnum_value ascii_stringer ascii_caser 1
       \<lparr>Name = ''In Progress'', Serialized = '''', ParseFrom = []\<rparr> =
     Inr \<lparr>Name = ''InProgress'', Serialized = ''in-progress'', ParseFrom = []\<rparr>"
proof -
  let ?v = "\<lparr>Name = ''In Progress'', Serialized = '''', ParseFrom = []\<rparr>"
  have a: "\<not> IsEmpty ascii_stringer (Name ?v)" by code_simp
  have b: "IsEmpty ascii_stringer (Serialized ?v)" by code_simp
  have c: "Serialize_Type example_enum = ''''" by code_simp
  have d: "PhraseToPascal ascii_caser ''In Progress'' = ''InProgress''" by code_simp
  have e: "PascalToKebabLower ascii_caser
             (RemoveNonLanguageCharacters ascii_stringer ''In Progress'' ''_'') = ''in-progress''"
    by code_simp
  have f: "RemoveSpace ascii_stringer
             (RemoveNonLanguageCharacters ascii_stringer ''In Progress'' ''_'') = ''InProgress''"
    by code_simp
  have g: "IsDefined ascii_stringer (Name ?v)" by code_simp
  from serialized_from_name
         [where st = ascii_stringer and v = ?v and typeConverter = "PhraseToPascal ascii_caser"
            and valueConverter = passthrough and i = 1 and enum = example_enum
            and ca = ascii_caser and ca' = ascii_caser, OF a b] c d e f g
  show ?thesis by simp
qed

text \<open>
  The claim as stated fails in both generators. With the name \<^verbatim>\<open>In Progress\<close> the older
  generator keeps the name as it is, blank included, where the claim has it
  normalized; \<^verbatim>\<open>cmd/enumer/main.go\<close> normalizes the name but derives the serialized text
  \<^verbatim>\<open>in-progress\<close>, which is not the phrase-to-pascal conversion of the name.
\<close>

theorem serialized_from_name_counterexample:
  "older_processEnum_value ascii_stringer (PhraseToPascal ascii_caser) passthrough 1
       \<lparr>Name = ''In Progress'', Serialized = '''', ParseFrom = []\<rparr> =
     Inr \<lparr>Name = ''In Progress'', Serialized = ''InProgress'', ParseFrom = []\<rparr> \<and>
   CHR '' '' \<in> set ''In Progress'' \<and>
   RemoveSpace ascii_stringer (RemoveSymbols ascii_stringer ''In Progress'') \<noteq> ''In Progress'' \<and>
   processEnum_value ascii_stringer ascii_caser 1
       \<lparr>Name = ''In Progress'', Serialized = '''', ParseFrom = []\<rparr> =
     Inr \<lparr>Name = ''InProgress'', Serialized = ''in-progress'', ParseFrom = []\<rparr> \<and>
   PhraseToPascal ascii_caser ''In Progress'' \<noteq> ''in-progress''"
  by code_simp

subsection \<open>IsEq\<close>

lemma IsEq_iff:
  "IsEq ToLower ToUpper a b \<longleftrightarrow> a = b \<or> ToLower a = ToLower b \<or> ToLower a = ToUpper b"
  by (simp add: IsEq_def Let_def)

text \<open>The ASCII stand-ins satisfy the two laws of case folding used below, on every string.\<close>

lemma lower_char_idem: "lower_char (lower_char c) = lower_char c"
  by (simp add: lower_char_def ascii_upper_def ascii_lower_def)

lemma lower_upper_char: "lower_char (upper_char c) = lower_char c"
  by (simp add: lower_char_def upper_char_def ascii_upper_def ascii_lower_def)

lemma ascii_ToLower_idem: "ascii_ToLower (ascii_ToLower s) = ascii_ToLower s"
  by (simp add: ascii_ToLower_def lower_char_idem)

lemma ascii_ToLower_ToUpper: "ascii_ToLower (ascii_ToUpper s) = ascii_ToLower s"
  by (simp add: ascii_ToLower_def ascii_ToUpper_def lower_upper_char)

text \<open>
  Claim C9. \<^verbatim>\<open>IsEq(a)(b)\<close> is true exactly when \<open>a\<close> equals \<open>b\<close> or the lower-cased \<open>a\<close>
  equals the lower-cased \<open>b\<close>: the third disjunct of the source compares the
  lower-cased \<open>a\<close> with the upper-cased \<open>b\<close> and adds no match. The two hypotheses are
  what is used of \<^verbatim>\<open>strings.ToLower\<close> and \<^verbatim>\<open>strings.ToUpper\<close> at \<open>a\<close> and \<open>b\<close>:
  lower-casing twice is lower-casing once, and lower-casing an upper-cased text is
  lower-casing the text.
\<close>

theorem IsEq_exact_or_lowercase:
  assumes "ToLower (ToLower a) = ToLower a" and "ToLower (ToUpper b) = ToLower b"
  shows "IsEq ToLower ToUpper a b \<longleftrightarrow> a = b \<or> ToLower a = ToLower b"
proof -
  have "ToLower a = ToLower b" if "ToLower a = ToUpper b"
  proof -
    from that have "ToLower (ToLower a) = ToLower (ToUpper b)" by simp
    with assms show ?thesis by simp
  qed
  then show ?thesis by (auto simp: IsEq_iff)
qed

theorem IsEq_exact_or_lowercase_witness:
  "(\<forall>a b. IsEq ascii_ToLower ascii_ToUpper a b
            \<longleftrightarrow> a = b \<or> ascii_ToLower a = ascii_ToLower b) \<and>
   IsEq ascii_ToLower ascii_ToUpper ''Done'' ''DONE'' \<and> ''Done'' \<noteq> ''DONE''"
proof -
  have all: "IsEq ascii_ToLower ascii_ToUpper a b
      \<longleftrightarrow> a = b \<or> ascii_ToLower a = ascii_ToLower b" for a b
    using IsEq_exact_or_lowercase
        [of ascii_ToLower a ascii_ToUpper b, OF ascii_ToLower_idem ascii_ToLower_ToUpper] .
  have "ascii_ToLower ''Done'' = ascii_ToLower ''DONE''" by code_simp
  with all show ?thesis by simp
qed

subsection \<open>The parse table and the loops of ParseFrom\<close>

lemma fold_parseMap_other:
  "k \<notin> Serialized ` set ws \<Longrightarrow>
   fold (\<lambda>w m. m(Serialized w \<mapsto> matchers_of w)) ws m k = m k"
  by (induction ws arbitrary: m) auto

lemma fold_parseMap_distinct:
  "distinct (map Serialized ws) \<Longrightarrow> x \<in> set ws \<Longrightarrow>
   fold (\<lambda>w m. m(Serialized w \<mapsto> matchers_of w)) ws m (Serialized x) = Some (matchers_of x)"
proof (induction ws arbitrary: m)
  case Nil
  then show ?case by simp
next
  case (Cons w ws)
  show ?case
  proof (cases "x = w")
    case True
    with Cons.prems have "Serialized w \<notin> Serialized ` set ws" by auto
    from fold_parseMap_other [OF this, of "m(Serialized w \<mapsto> matchers_of w)"]
    have "fold (\<lambda>w m. m(Serialized w \<mapsto> matchers_of w)) ws
            (m(Serialized w \<mapsto> matchers_of w)) (Serialized w) = Some (matchers_of w)"
      by (simp only: fun_upd_same)
    with True show ?thesis by (simp only: fold_simps)
  next
    case False
    with Cons.prems have "distinct (map Serialized ws)" and "x \<in> set ws" by auto
    from Cons.IH [OF this] show ?thesis by (simp only: fold_simps)
  qed
qed

lemma distinct_Serialized_insort_key:
  "distinct (map Serialized (insort_key Name x xs))
     \<longleftrightarrow> Serialized x \<notin> Serialized ` set xs \<and> distinct (map Serialized xs)"
  by (induction xs) (auto simp: set_insort_key)

lemma distinct_Serialized_sort_key:
  "distinct (map Serialized (sort_key Name vs)) = distinct (map Serialized vs)"
  by (induction vs) (auto simp: distinct_Serialized_insort_key)

lemma parseMap_companion_init:
  assumes "distinct (map Serialized vs)" and "x \<in> set vs"
  shows "parseMap (companion_init vs) (Serialized x) = Some (matchers_of x)"
  using assms
  by (simp add: companion_init_def fold_parseMap_distinct distinct_Serialized_sort_key)

lemma matchers_loop_eq:
  "matchers_loop v item ms (found, ok) = (if v \<in> set ms then (item, True) else (found, ok))"
  by (induction ms) auto

lemma errf_xs_eq:
  "errf_xs t items xs =
     xs @ concat (map (\<lambda>item. case parseMap t item of Some x \<Rightarrow> x | None \<Rightarrow> []) items)"
  by (induction items arbitrary: xs) (auto split: option.splits)

text \<open>
  What the generated \<^verbatim>\<open>ParseFrom\<close> of \<^verbatim>\<open>cmd/enumer/main.go\<close> computes: the first item
  with an entry in \<^verbatim>\<open>parseMap\<close> decides.
\<close>

lemma companion_ParseFrom_loop_eq:
  "companion_ParseFrom_loop t v items rest (found, False) =
     (case find (\<lambda>item. parseMap t item \<noteq> None) rest of
        None \<Rightarrow> (found, None)
      | Some item \<Rightarrow>
          if v \<in> set (the (parseMap t item)) then (item, None)
          else (found, Some (companion_errf t v items)))"
  by (induction rest) (auto simp: matchers_loop_eq split: option.splits)

lemma companion_ParseFrom_eq:
  "companion_ParseFrom t v items =
     (case find (\<lambda>item. parseMap t item \<noteq> None) items of
        None \<Rightarrow> ('''', None)
      | Some item \<Rightarrow>
          if v \<in> set (the (parseMap t item)) then (item, None)
          else ('''', Some (companion_errf t v items)))"
  by (simp add: companion_ParseFrom_def companion_ParseFrom_loop_eq)

lemma older_ParseFrom_loop_eq:
  "older_ParseFrom_loop ToLower ToUpper v values (found, False) =
     (case find (IsEq ToLower ToUpper v) values of
        Some x \<Rightarrow> (x, True)
      | None \<Rightarrow> (found, False))"
  by (induction "values") auto

lemma older_ParseFrom_eq:
  "older_ParseFrom ToLower ToUpper v values =
     (case find (IsEq ToLower ToUpper v) values of
        Some x \<Rightarrow> (x, None)
      | None \<Rightarrow> ('''', Some (MustBeOneOf v (Join values '', ''))))"
  by (simp add: older_ParseFrom_def older_ParseFrom_loop_eq older_newErr_def split: option.splits)

text \<open>
  The body of the outer loop returns in its first iteration that finds an entry: when
  the text is no matcher of that item the result is the error, whatever the items
  after it are.
\<close>

lemma companion_ParseFrom_first_decides:
  "parseMap t item = Some ms \<Longrightarrow> v \<notin> set ms \<Longrightarrow>
   companion_ParseFrom t v (item # rest) = ('''', Some (companion_errf t v (item # rest)))"
  by (simp add: companion_ParseFrom_eq)

subsection \<open>Parse, ParseFrom, Is and IsFrom\<close>

lemma find_parseMap_first:
  assumes "distinct (map Serialized vs)" and "c \<in> set vs"
  shows "find (\<lambda>item. parseMap (companion_init vs) item \<noteq> None) (Serialized c # items)
           = Some (Serialized c)"
  using parseMap_companion_init [OF assms] by simp

lemma errf_xs_registered:
  assumes "distinct (map Serialized vs)" and "set cands \<subseteq> set vs"
  shows "errf_xs (companion_init vs) (map Serialized cands) [] = concat (map matchers_of cands)"
proof -
  have "(case parseMap (companion_init vs) (Serialized x) of Some m \<Rightarrow> m | None \<Rightarrow> [])
          = matchers_of x" if "x \<in> set cands" for x
    using parseMap_companion_init [OF assms(1), of x] that assms(2) by auto
  then have "map (\<lambda>item. case parseMap (companion_init vs) item of Some m \<Rightarrow> m | None \<Rightarrow> [])
               (map Serialized cands) = map matchers_of cands"
    by simp
  then show ?thesis by (simp only: errf_xs_eq append_Nil)
qed

text \<open>
  Claim C3, as the code has it. The older generated \<^verbatim>\<open>ParseFrom\<close> goes through the
  candidates in order and returns the first one that \<^verbatim>\<open>IsEq\<close> matches with the text
  (the candidate is its serialized text; name and aliases are not consulted); with no
  match the error carries the text and the serialized texts of all candidates, joined
  by \<^verbatim>\<open>", "\<close>. In the companion of \<^verbatim>\<open>cmd/enumer/main.go\<close> a candidate matches when the text
  is equal, letter case included, to one of its matchers (serialized text, name,
  aliases). For candidates \<open>c # cs\<close> of an enumeration with pairwise different
  serialized texts: a text that matches \<open>c\<close> returns \<open>c\<close>; a text that matches no
  candidate returns the error carrying the text and the matchers of all candidates,
  joined by \<^verbatim>\<open>","\<close>.
\<close>

theorem ParseFrom_first_match_or_error:
  "older_ParseFrom ToLower ToUpper v values =
     (case find (IsEq ToLower ToUpper v) values of
        Some x \<Rightarrow> (x, None)
      | None \<Rightarrow> ('''', Some (MustBeOneOf v (Join values '', '')))) \<and>
   (distinct (map Serialized vs) \<and> set (c # cs) \<subseteq> set vs \<longrightarrow>
      (v \<in> set (matchers_of c) \<longrightarrow>
         companion_ParseFrom (companion_init vs) v (map Serialized (c # cs))
           = (Serialized c, None)) \<and>
      ((\<forall>x \<in> set (c # cs). v \<notin> set (matchers_of x)) \<longrightarrow>
         companion_ParseFrom (companion_init vs) v (map Serialized (c # cs))
           = ('''', Some (NotOneOf v (strings_Join (concat (map matchers_of (c # cs))) '','')))))"
proof -
  have new: "(v \<in> set (matchers_of c) \<longrightarrow>
         companion_ParseFrom (companion_init vs) v (map Serialized (c # cs))
           = (Serialized c, None)) \<and>
      ((\<forall>x \<in> set (c # cs). v \<notin> set (matchers_of x)) \<longrightarrow>
         companion_ParseFrom (companion_init vs) v (map Serialized (c # cs))
           = ('''', Some (NotOneOf v (strings_Join (concat (map matchers_of (c # cs))) '',''))))"
    if d: "distinct (map Serialized vs)" and sub: "set (c # cs) \<subseteq> set vs"
  proof -
    from sub have c: "c \<in> set vs" by simp
    have first: "find (\<lambda>item. parseMap (companion_init vs) item \<noteq> None) (map Serialized (c # cs))
        = Some (Serialized c)"
      using find_parseMap_first [OF d c] by simp
    have the: "the (parseMap (companion_init vs) (Serialized c)) = matchers_of c"
      using parseMap_companion_init [OF d c] by simp
    have err: "companion_errf (companion_init vs) v (map Serialized (c # cs))
        = NotOneOf v (strings_Join (concat (map matchers_of (c # cs))) '','')"
      unfolding companion_errf_def errf_xs_registered [OF d sub] ..
    show ?thesis
      by (simp only: companion_ParseFrom_eq first the err option.case) simp
  qed
  with older_ParseFrom_eq [of ToLower ToUpper v "values"] show ?thesis by blast
qed

theorem ParseFrom_first_match_or_error_witness:
  "older_ParseFrom ascii_ToLower ascii_ToUpper ''TO-DO'' [''done'', ''to-do''] = (''to-do'', None) \<and>
   companion_ParseFrom
     (companion_init
        [\<lparr>Name = ''Done'', Serialized = ''done'', ParseFrom = [''complete'', ''finished'']\<rparr>,
         \<lparr>Name = ''Todo'', Serialized = ''to-do'', ParseFrom = []\<rparr>])
     ''finished'' [''done'', ''to-do''] = (''done'', None) \<and>
   companion_ParseFrom
     (companion_init
        [\<lparr>Name = ''Done'', Serialized = ''done'', ParseFrom = [''complete'', ''finished'']\<rparr>,
         \<lparr>Name = ''Todo'', Serialized = ''to-do'', ParseFrom = []\<rparr>])
     ''doneX'' [''done'', ''to-do'']
     = ('''', Some (NotOneOf ''doneX'' ''done,Done,complete,finished,to-do,Todo''))"
proof -
  let ?c = "\<lparr>Name = ''Done'', Serialized = ''done'', ParseFrom = [''complete'', ''finished'']\<rparr>"
  let ?d = "\<lparr>Name = ''Todo'', Serialized = ''to-do'', ParseFrom = []\<rparr>"
  have f: "find (IsEq ascii_ToLower ascii_ToUpper ''TO-DO'') [''done'', ''to-do''] = Some ''to-do''"
    by code_simp
  have h: "distinct (map Serialized [?c, ?d]) \<and> set (?c # [?d]) \<subseteq> set [?c, ?d]"
    by simp
  have m1: "''finished'' \<in> set (matchers_of ?c)" by (simp add: matchers_of_def)
  have m2: "\<forall>x \<in> set (?c # [?d]). ''doneX'' \<notin> set (matchers_of x)"
    by (simp add: matchers_of_def)
  have j: "strings_Join (concat (map matchers_of (?c # [?d]))) '',''
      = ''done,Done,complete,finished,to-do,Todo''"
    by code_simp
  from ParseFrom_first_match_or_error
         [of ascii_ToLower ascii_ToUpper "''TO-DO''" "[''done'', ''to-do'']" "[?c, ?d]" ?c "[?d]"]
       ParseFrom_first_match_or_error
         [of ascii_ToLower ascii_ToUpper "''finished''" "[''done'', ''to-do'']" "[?c, ?d]" ?c "[?d]"]
       ParseFrom_first_match_or_error
         [of ascii_ToLower ascii_ToUpper "''doneX''" "[''done'', ''to-do'']" "[?c, ?d]" ?c "[?d]"]
       f h m1 m2 j
  show ?thesis by simp
qed

text \<open>
  The claim as stated fails in both companions, here for the enumeration resolved
  from \<open>example_enum\<close>. In the companion of \<^verbatim>\<open>cmd/enumer/main.go\<close> the text \<^verbatim>\<open>DONE\<close> does
  not match the candidate \<^verbatim>\<open>done\<close>, and the error lists names and aliases beside the
  serialized texts; in the older companion the alias \<^verbatim>\<open>complete\<close> and the name \<^verbatim>\<open>Todo\<close>
  match no candidate.
\<close>

theorem ParseFrom_counterexample:
  "companion_ParseFrom
     (companion_init (Values (fst (processEnum ascii_stringer ascii_caser example_enum))))
     ''DONE'' [''done'', ''to-do'']
     = ('''', Some (NotOneOf ''DONE'' ''done,Done,complete,finished,to-do,Todo'')) \<and>
   older_ParseFrom ascii_ToLower ascii_ToUpper ''complete''
     (older_Values (Values (fst (older_processEnum ascii_stringer ascii_caser example_enum))))
     = ('''', Some (MustBeOneOf ''complete'' ''done, InProgress, to-do'')) \<and>
   older_ParseFrom ascii_ToLower ascii_ToUpper ''Todo''
     (older_Values (Values (fst (older_processEnum ascii_stringer ascii_caser example_enum))))
     = ('''', Some (MustBeOneOf ''Todo'' ''done, InProgress, to-do''))"
  by code_simp

lemma find_first_index:
  "i < length xs \<Longrightarrow> P (xs ! i) \<Longrightarrow> (\<forall>j<i. \<not> P (xs ! j)) \<Longrightarrow> find P xs = Some (xs ! i)"
proof (induction xs arbitrary: i)
  case Nil
  then show ?case by simp
next
  case (Cons x xs)
  show ?case
  proof (cases i)
    case 0
    with Cons.prems show ?thesis by simp
  next
    case (Suc k)
    with Cons.prems have "\<not> P x" by auto
    moreover have "find P xs = Some (xs ! k)"
    proof (rule Cons.IH)
      show "k < length xs" using Cons.prems Suc by simp
      show "P (xs ! k)" using Cons.prems Suc by simp
      show "\<forall>j<k. \<not> P (xs ! j)" using Cons.prems(3) Suc by auto
    qed
    ultimately show ?thesis using Suc by simp
  qed
qed

text \<open>
  Claim C1, as the code has it. In the older companion \<^verbatim>\<open>Parse(s)\<close> succeeds for every
  \<open>s\<close> that is equal to the serialized text of a value, exactly or after lower-casing
  both, and returns a value that \<^verbatim>\<open>IsEq\<close> matches with \<open>s\<close>: the value at index \<open>i\<close>
  when \<^verbatim>\<open>IsEq\<close> matches \<open>s\<close> with no earlier value. The aliases are not consulted.
  In the companion of \<^verbatim>\<open>cmd/enumer/main.go\<close> the comparison is exact: for the first
  value \<open>c\<close> of an enumeration with pairwise different serialized texts, \<^verbatim>\<open>Parse(s)\<close>
  succeeds and returns \<open>c\<close> for every \<open>s\<close> equal to its serialized text, its name or
  one of its aliases.
\<close>

theorem Parse_returns_value:
  "((\<exists>x \<in> set vs. s = Serialized x \<or> ToLower s = ToLower (Serialized x))
      \<longrightarrow> snd (older_Parse ToLower ToUpper vs s) = None \<and>
          fst (older_Parse ToLower ToUpper vs s) \<in> Serialized ` set vs \<and>
          IsEq ToLower ToUpper s (fst (older_Parse ToLower ToUpper vs s))) \<and>
   (i < length vs \<and>
    (s = Serialized (vs ! i) \<or> ToLower s = ToLower (Serialized (vs ! i))) \<and>
    (\<forall>j<i. \<not> IsEq ToLower ToUpper s (Serialized (vs ! j)))
      \<longrightarrow> older_Parse ToLower ToUpper vs s = (Serialized (vs ! i), None)) \<and>
   (distinct (map Serialized (c # cs)) \<and> s \<in> set (matchers_of c)
      \<longrightarrow> companion_Parse (companion_init (c # cs)) s = (Serialized c, None))"
proof -
  have some: "snd (older_Parse ToLower ToUpper vs s) = None \<and>
      fst (older_Parse ToLower ToUpper vs s) \<in> Serialized ` set vs \<and>
      IsEq ToLower ToUpper s (fst (older_Parse ToLower ToUpper vs s))"
    if "\<exists>x \<in> set vs. s = Serialized x \<or> ToLower s = ToLower (Serialized x)"
  proof -
    from that have "\<exists>y \<in> set (map Serialized vs). IsEq ToLower ToUpper s y"
      by (auto simp: IsEq_iff)
    then obtain y where y: "find (IsEq ToLower ToUpper s) (map Serialized vs) = Some y"
      by (cases "find (IsEq ToLower ToUpper s) (map Serialized vs)") (auto simp: find_None_iff)
    then have "IsEq ToLower ToUpper s y" and "y \<in> set (map Serialized vs)"
      by (auto simp: find_Some_iff)
    with y show ?thesis
      by (auto simp: older_Parse_def older_Values_def older_ParseFrom_eq)
  qed
  have old: "older_Parse ToLower ToUpper vs s = (Serialized (vs ! i), None)"
    if i: "i < length vs"
      and m: "s = Serialized (vs ! i) \<or> ToLower s = ToLower (Serialized (vs ! i))"
      and e: "\<forall>j<i. \<not> IsEq ToLower ToUpper s (Serialized (vs ! j))"
  proof -
    from m have "IsEq ToLower ToUpper s (Serialized (vs ! i))" by (auto simp: IsEq_iff)
    with i e have "find (IsEq ToLower ToUpper s) (map Serialized vs) = Some (map Serialized vs ! i)"
      by (intro find_first_index) auto
    with i show ?thesis by (simp add: older_Parse_def older_Values_def older_ParseFrom_eq)
  qed
  have new: "companion_Parse (companion_init (c # cs)) s = (Serialized c, None)"
    if d: "distinct (map Serialized (c # cs))" and m: "s \<in> set (matchers_of c)"
  proof -
    have c: "c \<in> set (c # cs)" by simp
    have v: "companion_Values (companion_init (c # cs)) = Serialized c # map Serialized cs"
      by (simp add: companion_Values_def companion_init_def)
    have first: "find (\<lambda>item. parseMap (companion_init (c # cs)) item \<noteq> None)
        (Serialized c # map Serialized cs) = Some (Serialized c)"
      by (rule find_parseMap_first [OF d c])
    have the: "the (parseMap (companion_init (c # cs)) (Serialized c)) = matchers_of c"
      using parseMap_companion_init [OF d c] by simp
    show ?thesis
      unfolding companion_Parse_def v
      by (simp only: companion_ParseFrom_eq first the option.case m if_True)
  qed
  from some old new show ?thesis by blast
qed

theorem Parse_returns_value_witness:
  "older_Parse ascii_ToLower ascii_ToUpper
     [\<lparr>Name = ''done'', Serialized = ''done'', ParseFrom = [''complete'', ''finished'']\<rparr>,
      \<lparr>Name = ''Todo'', Serialized = ''to-do'', ParseFrom = []\<rparr>] ''TO-DO'' = (''to-do'', None) \<and>
   companion_Parse
     (companion_init
        [\<lparr>Name = ''Done'', Serialized = ''done'', ParseFrom = [''complete'', ''finished'']\<rparr>,
         \<lparr>Name = ''Todo'', Serialized = ''to-do'', ParseFrom = []\<rparr>])
     ''finished'' = (''done'', None)"
proof -
  let ?a = "\<lparr>Name = ''done'', Serialized = ''done'', ParseFrom = [''complete'', ''finished'']\<rparr>"
  let ?c = "\<lparr>Name = ''Done'', Serialized = ''done'', ParseFrom = [''complete'', ''finished'']\<rparr>"
  let ?d = "\<lparr>Name = ''Todo'', Serialized = ''to-do'', ParseFrom = []\<rparr>"
  have i: "1 < length [?a, ?d]" by simp
  have s: "[?a, ?d] ! 1 = ?d" by simp
  have m: "ascii_ToLower ''TO-DO'' = ascii_ToLower (Serialized ?d)" by code_simp
  have e0: "\<not> IsEq ascii_ToLower ascii_ToUpper ''TO-DO'' (Serialized ([?a, ?d] ! 0))" by code_simp
  have e: "\<forall>j<1. \<not> IsEq ascii_ToLower ascii_ToUpper ''TO-DO'' (Serialized ([?a, ?d] ! j))"
    using e0 by simp
  have d: "distinct (map Serialized (?c # [?d]))" by simp
  have n: "''finished'' \<in> set (matchers_of ?c)" by (simp add: matchers_of_def)
  from Parse_returns_value
         [where i = 1 and vs = "[?a, ?d]" and s = "''TO-DO''" and ToLower = ascii_ToLower
            and ToUpper = ascii_ToUpper]
       Parse_returns_value
         [where s = "''finished''" and c = ?c and cs = "[?d]"]
       i s m e d n
  show ?thesis by simp
qed

text \<open>
  The claim as stated fails in both companions. For the enumeration resolved from
  \<open>example_enum\<close>, the companion of \<^verbatim>\<open>cmd/enumer/main.go\<close> rejects \<^verbatim>\<open>DONE\<close>, the serialized
  text \<^verbatim>\<open>done\<close> in another letter case, and the older companion rejects the alias
  \<^verbatim>\<open>finished\<close>. For the enumeration resolved from \<open>ambiguous_enum\<close> the older companion
  parses \<^verbatim>\<open>active\<close>, the serialized text of the second value, to the first value
  \<^verbatim>\<open>Active\<close>.
\<close>

theorem Parse_counterexample:
  "companion_Parse
     (companion_init (Values (fst (processEnum ascii_stringer ascii_caser example_enum))))
     ''DONE''
     = ('''', Some (NotOneOf ''DONE''
          ''done,Done,complete,finished,in-progress,InProgress,to-do,Todo'')) \<and>
   older_Parse ascii_ToLower ascii_ToUpper
     (Values (fst (older_processEnum ascii_stringer ascii_caser example_enum))) ''finished''
     = ('''', Some (MustBeOneOf ''finished'' ''done, InProgress, to-do'')) \<and>
   older_Parse ascii_ToLower ascii_ToUpper
     (Values (fst (older_processEnum ascii_stringer ascii_caser ambiguous_enum))) ''active''
     = (''Active'', None)"
  by code_simp

lemma older_ParseFrom_loop_ok:
  "snd (older_ParseFrom_loop ToLower ToUpper v values (found, False))
     = older_IsFrom ToLower ToUpper v values"
  by (induction "values") simp_all

text \<open>
  Claim C7. \<^verbatim>\<open>Is(text)\<close> is true exactly when \<^verbatim>\<open>Parse(text)\<close> returns a nil error, and
  \<^verbatim>\<open>IsFrom(text, candidates)\<close> exactly when \<^verbatim>\<open>ParseFrom(text, candidates)\<close> does, on the
  same candidates; both return a \<^verbatim>\<open>bool\<close> and no error. This holds in the companion of
  \<^verbatim>\<open>cmd/enumer/main.go\<close>, where \<^verbatim>\<open>IsFrom\<close> calls \<^verbatim>\<open>ParseFrom\<close>, and in the older
  companion, where \<^verbatim>\<open>IsFrom\<close> is a loop of its own.
\<close>

theorem Is_iff_Parse_succeeds:
  "(companion_Is t v \<longleftrightarrow> snd (companion_Parse t v) = None) \<and>
   (companion_IsFrom t v items \<longleftrightarrow> snd (companion_ParseFrom t v items) = None) \<and>
   (older_Is ToLower ToUpper vs v \<longleftrightarrow> snd (older_Parse ToLower ToUpper vs v) = None) \<and>
   (older_IsFrom ToLower ToUpper v values
      \<longleftrightarrow> snd (older_ParseFrom ToLower ToUpper v values) = None)"
proof -
  have a: "companion_IsFrom t v xs \<longleftrightarrow> snd (companion_ParseFrom t v xs) = None" for xs
    by (simp add: companion_IsFrom_def split: prod.splits)
  have b: "older_IsFrom ToLower ToUpper v xs
      \<longleftrightarrow> snd (older_ParseFrom ToLower ToUpper v xs) = None" for xs
    using older_ParseFrom_loop_ok [of ToLower ToUpper v xs "''''"]
    by (auto simp: older_ParseFrom_def split: prod.splits)
  show ?thesis
    using a b by (simp add: companion_Is_def companion_Parse_def older_Is_def older_Parse_def)
qed

theorem Is_iff_Parse_succeeds_witness:
  "companion_Is (companion_init [\<lparr>Name = ''Done'', Serialized = ''done'', ParseFrom = []\<rparr>]) ''Done'' \<and>
   snd (companion_Parse
     (companion_init [\<lparr>Name = ''Done'', Serialized = ''done'', ParseFrom = []\<rparr>]) ''Done'') = None \<and>
   \<not> older_Is ascii_ToLower ascii_ToUpper
     [\<lparr>Name = ''Done'', Serialized = ''done'', ParseFrom = []\<rparr>] ''doneX'' \<and>
   snd (older_Parse ascii_ToLower ascii_ToUpper
     [\<lparr>Name = ''Done'', Serialized = ''done'', ParseFrom = []\<rparr>] ''doneX'') \<noteq> None"
proof -
  have a: "snd (companion_Parse
     (companion_init [\<lparr>Name = ''Done'', Serialized = ''done'', ParseFrom = []\<rparr>]) ''Done'') = None"
    by code_simp
  have b: "snd (older_Parse ascii_ToLower ascii_ToUpper
     [\<lparr>Name = ''Done'', Serialized = ''done'', ParseFrom = []\<rparr>] ''doneX'') \<noteq> None"
    by code_simp
  show ?thesis
    using a b
      Is_iff_Parse_succeeds
        [where t = "companion_init [\<lparr>Name = ''Done'', Serialized = ''done'', ParseFrom = []\<rparr>]"
           and v = "''Done''"]
      Is_iff_Parse_succeeds
        [where ToLower = ascii_ToLower and ToUpper = ascii_ToUpper
           and vs = "[\<lparr>Name = ''Done'', Serialized = ''done'', ParseFrom = []\<rparr>]" and v = "''doneX''"]
    by simp
qed

text \<open>
  Claim C10. In the companion generated by \<^verbatim>\<open>cmd/enumer/main.go\<close>, \<^verbatim>\<open>ParseFrom\<close> with
  no candidate returns the zero value \<^verbatim>\<open>""\<close> and a nil error, and so \<^verbatim>\<open>IsFrom\<close> with no
  candidate is true for every text.
\<close>

theorem companion_ParseFrom_no_candidates:
  "companion_ParseFrom t v [] = ('''', None) \<and> companion_IsFrom t v []"
  by (simp add: companion_ParseFrom_def companion_IsFrom_def)

theorem companion_ParseFrom_no_candidates_witness:
  "companion_ParseFrom
     (companion_init [\<lparr>Name = ''Done'', Serialized = ''done'', ParseFrom = []\<rparr>]) ''doneX'' []
     = ('''', None) \<and>
   companion_IsFrom
     (companion_init [\<lparr>Name = ''Done'', Serialized = ''done'', ParseFrom = []\<rparr>]) ''doneX'' []"
  using companion_ParseFrom_no_candidates
    [of "companion_init [\<lparr>Name = ''Done'', Serialized = ''done'', ParseFrom = []\<rparr>]" "''doneX''"]
  by simp

text \<open>The older generated \<^verbatim>\<open>ParseFrom\<close> returns its error when there is no candidate.\<close>

lemma older_ParseFrom_no_candidates:
  "older_ParseFrom ToLower ToUpper v [] = ('''', Some (MustBeOneOf v '''')) \<and>
   \<not> older_IsFrom ToLower ToUpper v []"
  by (simp add: older_ParseFrom_def older_newErr_def Join_def)

subsection \<open>Scan\<close>

lemma Scan_conversion_error:
  "value \<noteq> AnyNil \<Longrightarrow> ConvertValue value = Inl err \<Longrightarrow>
   Scan ConvertValue value e parser = (e, Some err)"
  by (simp add: Scan_def)

text \<open>
  Claim C8. \<^verbatim>\<open>Scan\<close> returns the error \<^verbatim>\<open>"cannot be null"\<close> for a nil value and the error
  \<^verbatim>\<open>"not a string"\<close> when the converted value is not a string; otherwise it calls the
  parser on the converted text and returns the parser's error as it is, storing the
  parsed value through the pointer only when that error is nil.
\<close>

theorem Scan_cases:
  "Scan ConvertValue AnyNil e parser = (e, Some CannotBeNull) \<and>
   (value \<noteq> AnyNil \<and> ConvertValue value = Inr dv \<and> (\<forall>s. dv \<noteq> AnyString s)
      \<longrightarrow> Scan ConvertValue value e parser = (e, Some NotAString)) \<and>
   (value \<noteq> AnyNil \<and> ConvertValue value = Inr (AnyString s)
      \<longrightarrow> snd (Scan ConvertValue value e parser) = snd (parser s) \<and>
          fst (Scan ConvertValue value e parser)
            = (if snd (parser s) = None then fst (parser s) else e))"
  by (cases dv) (auto simp: Scan_def split: prod.splits option.splits)

theorem Scan_cases_witness:
  "Scan Inr (AnyNil :: nat any) ''old''
      (older_Parse ascii_ToLower ascii_ToUpper [\<lparr>Name = ''Done'', Serialized = ''done'', ParseFrom = []\<rparr>])
     = (''old'', Some CannotBeNull) \<and>
   Scan Inr (AnyOther (7 :: nat)) ''old''
      (older_Parse ascii_ToLower ascii_ToUpper [\<lparr>Name = ''Done'', Serialized = ''done'', ParseFrom = []\<rparr>])
     = (''old'', Some NotAString) \<and>
   snd (Scan Inr (AnyString ''doneX'' :: nat any) ''old''
      (older_Parse ascii_ToLower ascii_ToUpper [\<lparr>Name = ''Done'', Serialized = ''done'', ParseFrom = []\<rparr>]))
     = Some (MustBeOneOf ''doneX'' ''done'') \<and>
   fst (Scan Inr (AnyString ''doneX'' :: nat any) ''old''
      (older_Parse ascii_ToLower ascii_ToUpper [\<lparr>Name = ''Done'', Serialized = ''done'', ParseFrom = []\<rparr>]))
     = ''old''"
proof -
  have p: "older_Parse ascii_ToLower ascii_ToUpper
      [\<lparr>Name = ''Done'', Serialized = ''done'', ParseFrom = []\<rparr>] ''doneX''
     = ('''', Some (MustBeOneOf ''doneX'' ''done''))"
    by code_simp
  show ?thesis
    using p
      Scan_cases [of "Inr :: nat any \<Rightarrow> error + nat any" "''old''"
        "older_Parse ascii_ToLower ascii_ToUpper [\<lparr>Name = ''Done'', Serialized = ''done'', ParseFrom = []\<rparr>]"
        "AnyOther 7" "AnyOther 7" "''doneX''"]
      Scan_cases [of "Inr :: nat any \<Rightarrow> error + nat any" "''old''"
        "older_Parse ascii_ToLower ascii_ToUpper [\<lparr>Name = ''Done'', Serialized = ''done'', ParseFrom = []\<rparr>]"
        "AnyString ''doneX''" "AnyString ''doneX''" "''doneX''"]
    by simp
qed

end
